theory Spec2Isabelle
  imports
    Main
    "HOL-Library.Word"
    "HOL-Library.Char_ord"
    "HOL-Library.List_Lexorder"
    "HOL-Library.Sublist"
    "HOL-Library.AList"
    "HOL-Library.Multiset"
begin

section \<open>Data model of cmd/extract.go\<close>

text \<open>
  Byte slices and Go strings are both lists of bytes: one \<^typ>\<open>char\<close> per byte.
  With \<open>Char_ord\<close> and \<open>List_Lexorder\<close> the order on \<^typ>\<open>string\<close> is the byte-wise
  lexicographic order that Go's \<open>strings.Compare\<close> uses.
\<close>

type_synonym bytes = string

text \<open>Go's \<open>int64\<close>: a 64-bit word, compared as two's complement (\<open><s\<close>, \<open>sint\<close>).\<close>

type_synonym int64 = "64 word"

text \<open>
  A non-nil Go \<open>error\<close>, identified by the message that \<open>err.Error()\<close> returns.
  \<open>fmt.Errorf(format, ...)\<close> is \<open>Err\<close> applied to the formatted message.
  A nil error is \<open>None\<close> of \<open>error option\<close>; a result \<open>(T, error)\<close> whose value is
  only read when the error is nil is \<open>error + T\<close>.
\<close>

datatype error = Err string

fun Error :: "error \<Rightarrow> string" where
  "Error (Err msg) = msg"

text \<open>\<open>mvccpb.KeyValue\<close> (package etcd/mvcc/mvccpb): one decoded physical entry.\<close>

record KeyValue =
  kv_Key :: bytes
  kv_CreateRevision :: int64
  kv_ModRevision :: int64
  kv_Version :: int64
  kv_Value :: bytes
  kv_Lease :: int64

text \<open>\<open>runtime.TypeMeta\<close> (package k8s.io/apimachinery/pkg/runtime).\<close>

record runtime_TypeMeta =
  APIVersion :: string
  Kind :: string

text \<open>What \<open>json.Unmarshal\<close> stores into a \<open>map[string]interface{}\<close>.\<close>

datatype json =
    JNull
  | JBool bool
  | JNumber string
  | JString string
  | JArray "json list"
  | JObject "(string \<times> json) list"

text \<open>
  \<open>KeySummaryStats\<close> and \<open>KeySummary\<close>. Go's \<open>int\<close> counts and sizes are \<^typ>\<open>int\<close>:
  they count records and bytes of one store file and cannot overflow 64 bits.
  \<open>Stats\<close> is a pointer owned by its summary alone, so it is a nested record.
  \<open>Value\<close> holds the result of \<open>rawJsonUnmarshal\<close>: \<open>None\<close> is the nil map.
\<close>

record KeySummaryStats =
  VersionCount :: int
  KeySize :: int
  ValueSize :: int
  AllVersionsKeySize :: int
  AllVersionsValueSize :: int

record KeySummary =
  Key :: string
  Version :: int64
  Value :: "json option"
  TypeMeta :: "runtime_TypeMeta option"
  Stats :: KeySummaryStats

text \<open>The global \<open>opts\<close> of the source, passed as a value.\<close>

record extractOptions =
  opt_out :: string
  opt_filename :: string
  opt_key :: string
  opt_version :: string
  opt_keyPrefix :: string
  opt_listVersions :: bool
  opt_leafItem :: bool
  opt_printKey :: bool
  opt_metaSummary :: bool
  opt_raw :: bool
  opt_fields :: string
  opt_template :: string

text \<open>
  The field names of a listing (the constants \<open>Key\<close>, \<open>ValueSize\<close>, ... of the source;
  suffixed because the record fields above have the same names).
\<close>

definition Key_field :: string where "Key_field = ''key''"
definition ValueSize_field :: string where "ValueSize_field = ''value-size''"
definition AllVersionsValueSize_field :: string where
  "AllVersionsValueSize_field = ''all-versions-value-size''"
definition VersionCount_field :: string where "VersionCount_field = ''version-count''"
definition Value_field :: string where "Value_field = ''value''"

definition SummaryFields :: "string list" where
  "SummaryFields =
     [Key_field, ValueSize_field, AllVersionsValueSize_field, VersionCount_field, Value_field]"

section \<open>The outside world\<close>

text \<open>
  Effects are explicit. A \<open>world\<close> holds the bytes written to \<open>os.Stdout\<close> so far (the only
  writer \<open>extractValidateAndRun\<close> hands to the printing functions) and the log of the
  input operations performed: every \<open>bolt.Open\<close> and every \<open>readInput\<close>, in order.
\<close>

datatype io_event = BoltOpen string | ReadInput string

record world =
  stdout :: string
  io :: "io_event list"

text \<open>
  The functions \<open>extract.go\<close> calls in other packages and files are parameters, collected
  in one record, so that every theorem holds for whatever they compute:
  \<^item> \<open>ToMediaType\<close>, \<open>DetectAndExtract\<close>, \<open>Convert\<close>, \<open>JsonMediaType\<close>: package
    \<open>pkg/encoding\<close>. \<open>Convert\<close> returns the bytes it wrote to its writer, then Go's
    pair \<open>(*runtime.TypeMeta, error)\<close>.
  \<^item> \<open>readInput\<close>: another file of package \<open>cmd\<close>.
  \<^item> \<open>bolt_Open\<close>: \<open>bolt.Open\<close> followed by a read-only cursor over the bucket \<open>key\<close>; on
    success, the values of the bucket's entries in cursor order (the store is read-only,
    so it is a function of the file name). A file without that bucket, on which the
    source dereferences a nil bucket, is outside the model.
  \<^item> \<open>Unmarshal\<close>: \<open>mvccpb.KeyValue.Unmarshal\<close>, the record decoder.
  \<^item> \<open>ParseInt\<close>: \<open>strconv.ParseInt(s, 10, 64)\<close>; \<open>TrimSpace\<close>: \<open>strings.TrimSpace\<close>;
    \<open>json_Unmarshal\<close>, \<open>json_Marshal\<close>: package \<open>encoding/json\<close>.
  \<^item> \<open>template_Parse\<close>, \<open>template_Execute\<close>: package \<open>text/template\<close>. The parsed
    template is a function of the template text, so \<open>template_Execute\<close> takes the text;
    it returns the bytes written, also when it fails.
\<close>

record externals =
  ToMediaType :: "string \<Rightarrow> error + string"
  JsonMediaType :: string
  DetectAndExtract :: "bytes \<Rightarrow> error + (string \<times> bytes)"
  Convert :: "string \<Rightarrow> string \<Rightarrow> bytes \<Rightarrow> bytes \<times> runtime_TypeMeta option \<times> error option"
  readInput :: "string \<Rightarrow> error + bytes"
  bolt_Open :: "string \<Rightarrow> error + bytes list"
  Unmarshal :: "bytes \<Rightarrow> error + KeyValue"
  ParseInt :: "string \<Rightarrow> error + int64"
  TrimSpace :: "string \<Rightarrow> string"
  json_Unmarshal :: "string \<Rightarrow> error + json"
  json_Marshal :: "json option \<Rightarrow> error + string"
  template_Parse :: "string \<Rightarrow> error option"
  template_Execute :: "string \<Rightarrow> KeySummary \<Rightarrow> string \<times> error option"

section \<open>The store walker\<close>

text \<open>
  A visitor is the closure passed to \<open>walk\<close>. The variables it captures and mutates are
  its state \<open>'a\<close>; it returns Go's pair \<open>(bool, error)\<close> and the new state.
\<close>

type_synonym 'a visitor = "KeyValue \<Rightarrow> 'a \<Rightarrow> (bool \<times> error option) \<times> 'a"

text \<open>The cursor loop of \<open>walk\<close> over the entries that are left.\<close>

fun walk_loop :: "externals \<Rightarrow> 'a visitor \<Rightarrow> bytes list \<Rightarrow> 'a \<Rightarrow> error option \<times> 'a" where
  "walk_loop ex f [] a = (None, a)"
| "walk_loop ex f (v # vs) a =
     (case Unmarshal ex v of
        Inl err \<Rightarrow> (Some err, a)
      | Inr kv \<Rightarrow>
          (case f kv a of
             ((done, Some err), a') \<Rightarrow> (Some (Err (''Error handling key '' @ kv_Key kv)), a')
           | ((done, None), a') \<Rightarrow>
               if done then (None, a') else walk_loop ex f vs a'))"

definition walk :: "externals \<Rightarrow> string \<Rightarrow> 'a visitor \<Rightarrow> 'a \<Rightarrow> world \<Rightarrow> (error option \<times> 'a) \<times> world" where
  "walk ex filename f a w =
     (let w' = w\<lparr>io := io w @ [BoltOpen filename]\<rparr> in
      case bolt_Open ex filename of
        Inl err \<Rightarrow> ((Some err, a), w')
      | Inr entries \<Rightarrow> (walk_loop ex f entries a, w'))"

section \<open>The version resolver\<close>

fun maxInSlice_loop :: "int64 \<Rightarrow> int64 list \<Rightarrow> int64" where
  "maxInSlice_loop r [] = r"
| "maxInSlice_loop r (e # s) = maxInSlice_loop (if r <s e then e else r) s"

definition maxInSlice :: "int64 list \<Rightarrow> int64" where
  "maxInSlice s = maxInSlice_loop 0 s"

definition listVersions_visit :: "string \<Rightarrow> int64 list visitor" where
  "listVersions_visit key kv result =
     ((False, None), if kv_Key kv = key then result @ [kv_Version kv] else result)"

definition listVersions :: "externals \<Rightarrow> string \<Rightarrow> string \<Rightarrow> world \<Rightarrow> (error + int64 list) \<times> world" where
  "listVersions ex filename key w =
     (case walk ex filename (listVersions_visit key) [] w of
        ((Some err, result), w') \<Rightarrow> (Inl err, w')
      | ((None, result), w') \<Rightarrow> (Inr result, w'))"

text \<open>The visitor of \<open>getValue\<close> captures \<open>result\<close> and \<open>found\<close>.\<close>

definition getValue_visit :: "string \<Rightarrow> int64 \<Rightarrow> (bytes \<times> bool) visitor" where
  "getValue_visit key version kv s =
     (if kv_Key kv = key \<and> kv_Version kv = version
      then ((True, None), (kv_Value kv, True))
      else ((False, None), s))"

definition getValue :: "externals \<Rightarrow> string \<Rightarrow> string \<Rightarrow> int64 \<Rightarrow> world \<Rightarrow> (error + bytes) \<times> world" where
  "getValue ex filename key version w =
     (case walk ex filename (getValue_visit key version) ([], False) w of
        ((Some err, s), w') \<Rightarrow> (Inl err, w')
      | ((None, (result, found)), w') \<Rightarrow>
          if \<not> found then (Inl (Err (''key not found: '' @ key)), w') else (Inr result, w'))"

section \<open>The key aggregator\<close>

definition bytes_HasPrefix :: "bytes \<Rightarrow> bytes \<Rightarrow> bool" where
  "bytes_HasPrefix s pre = prefix pre s"

text \<open>
  \<open>convert\<close> returns the bytes written to its writer \<open>out\<close>, then the pair
  \<open>(*runtime.TypeMeta, error)\<close>.
\<close>

definition convert :: "externals \<Rightarrow> string \<Rightarrow> bytes \<Rightarrow> bytes \<times> runtime_TypeMeta option \<times> error option" where
  "convert ex outMediaType inb =
     (case DetectAndExtract ex inb of
        Inl err \<Rightarrow> ([], None, Some err)
      | Inr (inMediaType, inb') \<Rightarrow> Convert ex inMediaType outMediaType inb')"

definition rawJsonMarshal :: "externals \<Rightarrow> json option \<Rightarrow> string" where
  "rawJsonMarshal ex data = (case json_Marshal ex data of Inl err \<Rightarrow> [] | Inr b \<Rightarrow> b)"

definition rawJsonUnmarshal :: "externals \<Rightarrow> string \<Rightarrow> json option" where
  "rawJsonUnmarshal ex valJson =
     (case json_Unmarshal ex valJson of Inl err \<Rightarrow> None | Inr val \<Rightarrow> Some val)"

text \<open>
  The map \<open>m\<close> of \<open>listKeySummaries\<close> is an association list with one entry per key. The
  visitor looks the record's key up; a summary found is mutated through its pointer, which
  is an update of the entry in place.
\<close>

definition listKeySummaries_visit :: "externals \<Rightarrow> bytes \<Rightarrow> (string \<times> KeySummary) list visitor" where
  "listKeySummaries_visit ex prefixBytes kv m =
     (if bytes_HasPrefix (kv_Key kv) prefixBytes then
        (case map_of m (kv_Key kv) of
           None \<Rightarrow>
             (case convert ex (JsonMediaType ex) (kv_Value kv) of
                (buf, typeMeta, err) \<Rightarrow>
                  (let valJson = (if err = None then TrimSpace ex buf else []);
                       ks = \<lparr>Key = kv_Key kv,
                             Version = kv_Version kv,
                             Value = rawJsonUnmarshal ex valJson,
                             TypeMeta = typeMeta,
                             Stats = \<lparr>VersionCount = 1,
                                      KeySize = int (length (kv_Key kv)),
                                      ValueSize = int (length (kv_Value kv)),
                                      AllVersionsKeySize = int (length (kv_Key kv)),
                                      AllVersionsValueSize = int (length (kv_Value kv))\<rparr>\<rparr>
                   in ((False, None), AList.update (kv_Key kv) ks m)))
         | Some ks \<Rightarrow>
             (let ks1 = (if Version ks <s kv_Version kv
                         then ks\<lparr>Version := kv_Version kv,
                                 Stats := (Stats ks)\<lparr>ValueSize := int (length (kv_Value kv))\<rparr>\<rparr>
                         else ks);
                  ks2 = ks1\<lparr>Stats := (Stats ks1)
                          \<lparr>VersionCount := VersionCount (Stats ks1) + 1,
                           AllVersionsKeySize :=
                             AllVersionsKeySize (Stats ks1) + int (length (kv_Key kv)),
                           AllVersionsValueSize :=
                             AllVersionsValueSize (Stats ks1) + int (length (kv_Value kv))\<rparr>\<rparr>
              in ((False, None), AList.update (kv_Key kv) ks2 m)))
      else ((False, None), m))"

definition strings_Compare :: "string \<Rightarrow> string \<Rightarrow> int" where
  "strings_Compare a b = (if a = b then 0 else if a < b then - 1 else 1)"

text \<open>
  \<open>sort.Slice\<close> of the standard library, as insertion sort with the caller's comparator.
  The keys of a Go map are pairwise distinct, so the order of the result does not depend on
  the sorting algorithm, nor on the order in which \<open>range m\<close> yields the summaries
  (see \<open>getSortedKeySummaries_range_order\<close> below).
\<close>

fun sort_insert :: "('a \<Rightarrow> 'a \<Rightarrow> bool) \<Rightarrow> 'a \<Rightarrow> 'a list \<Rightarrow> 'a list" where
  "sort_insert lessf x [] = [x]"
| "sort_insert lessf x (y # ys) =
     (if lessf x y then x # y # ys else y # sort_insert lessf x ys)"

definition sort_Slice :: "'a list \<Rightarrow> ('a \<Rightarrow> 'a \<Rightarrow> bool) \<Rightarrow> 'a list" where
  "sort_Slice xs lessf = foldr (sort_insert lessf) xs []"

definition getSortedKeySummaries :: "(string \<times> KeySummary) list \<Rightarrow> KeySummary list" where
  "getSortedKeySummaries m =
     sort_Slice (map snd m) (\<lambda>a b. strings_Compare (Key a) (Key b) \<le> 0)"

definition listKeySummaries :: "externals \<Rightarrow> string \<Rightarrow> string \<Rightarrow> world \<Rightarrow> (error + KeySummary list) \<times> world" where
  "listKeySummaries ex filename pre w =
     (case walk ex filename (listKeySummaries_visit ex pre) [] w of
        ((Some err, m), w') \<Rightarrow> (Inl err, w')
      | ((None, m), w') \<Rightarrow> (Inr (getSortedKeySummaries m), w'))"

section \<open>The presentation layer\<close>

definition newline :: string where
  "newline = [CHR 0x0A]"

text \<open>The verb \<open>%d\<close> of package \<open>fmt\<close>: a decimal numeral, with a sign when negative.\<close>

fun digits :: "nat \<Rightarrow> string" where
  "digits n =
     (if n < 10 then [char_of (48 + n)] else digits (n div 10) @ [char_of (48 + n mod 10)])"

declare digits.simps [simp del]

definition fmt_d :: "int \<Rightarrow> string" where
  "fmt_d i = (if i < 0 then CHR ''-'' # digits (nat (- i)) else digits (nat i))"

fun strings_Join :: "string list \<Rightarrow> string \<Rightarrow> string" where
  "strings_Join [] sep = []"
| "strings_Join [x] sep = x"
| "strings_Join (x # y # ys) sep = x @ sep @ strings_Join (y # ys) sep"

text \<open>\<open>strings.Split\<close> for a separator of one byte.\<close>

fun strings_Split :: "string \<Rightarrow> char \<Rightarrow> string list" where
  "strings_Split [] sep = [[]]"
| "strings_Split (c # cs) sep =
     (if c = sep then [] # strings_Split cs sep
      else (case strings_Split cs sep of
              [] \<Rightarrow> [[c]]
            | p # ps \<Rightarrow> (c # p) # ps))"

text \<open>The \<open>switch\<close> of \<open>summarize\<close> on one field name.\<close>

definition summarize_field :: "externals \<Rightarrow> KeySummary \<Rightarrow> string \<Rightarrow> error + string" where
  "summarize_field ex s field =
     (if field = Key_field then Inr (Key s)
      else if field = ValueSize_field then Inr (fmt_d (ValueSize (Stats s)))
      else if field = AllVersionsValueSize_field then Inr (fmt_d (AllVersionsValueSize (Stats s)))
      else if field = VersionCount_field then Inr (fmt_d (VersionCount (Stats s)))
      else if field = Value_field then Inr (rawJsonMarshal ex (Value s))
      else Inl (Err (''unrecognized field: '' @ field)))"

fun summarize_loop :: "externals \<Rightarrow> KeySummary \<Rightarrow> string list \<Rightarrow> error + string list" where
  "summarize_loop ex s [] = Inr []"
| "summarize_loop ex s (field # flds) =
     (case summarize_field ex s field of
        Inl err \<Rightarrow> Inl err
      | Inr v \<Rightarrow>
          (case summarize_loop ex s flds of
             Inl err \<Rightarrow> Inl err
           | Inr values \<Rightarrow> Inr (v # values)))"

definition summarize :: "externals \<Rightarrow> KeySummary \<Rightarrow> string list \<Rightarrow> error + string" where
  "summarize ex s flds =
     (case summarize_loop ex s flds of
        Inl err \<Rightarrow> Inl err
      | Inr values \<Rightarrow> Inr (strings_Join values '' ''))"

definition printVersions :: "externals \<Rightarrow> string \<Rightarrow> string \<Rightarrow> world \<Rightarrow> error option \<times> world" where
  "printVersions ex filename key w =
     (case listVersions ex filename key w of
        (Inl err, w1) \<Rightarrow> (Some err, w1)
      | (Inr versions, w1) \<Rightarrow>
          (None, w1\<lparr>stdout := stdout w1 @ concat (map (\<lambda>v. fmt_d (sint v) @ newline) versions)\<rparr>))"

definition printValue :: "externals \<Rightarrow> string \<Rightarrow> string \<Rightarrow> string \<Rightarrow> bool \<Rightarrow> string \<Rightarrow> world \<Rightarrow> error option \<times> world" where
  "printValue ex filename key version raw outMediaType w =
     (case (if version = [] then
              (case listVersions ex filename key w of
                 (Inl err, w1) \<Rightarrow> (Inl err, w1)
               | (Inr versions, w1) \<Rightarrow>
                   if length versions = 0
                   then (Inl (Err (''No versions found for key: '' @ key)), w1)
                   else (Inr (maxInSlice versions), w1))
            else
              (case ParseInt ex version of
                 Inl err \<Rightarrow>
                   (Inl (Err (''version must be an int64, but got '' @ version @ '': '' @ Error err)), w)
               | Inr v \<Rightarrow> (Inr v, w)))
      of
        (Inl err, w1) \<Rightarrow> (Some err, w1)
      | (Inr v, w1) \<Rightarrow>
          (case getValue ex filename key v w1 of
             (Inl err, w2) \<Rightarrow> (Some err, w2)
           | (Inr inb, w2) \<Rightarrow>
               if length inb = 0 then (Some (Err ''0 byte value''), w2)
               else if raw then (None, w2\<lparr>stdout := stdout w2 @ inb @ newline\<rparr>)
               else (case convert ex outMediaType inb of
                       (written, typeMeta, err) \<Rightarrow> (err, w2\<lparr>stdout := stdout w2 @ written\<rparr>))))"

definition printLeafItemKey :: "KeyValue \<Rightarrow> world \<Rightarrow> error option \<times> world" where
  "printLeafItemKey kv w = (None, w\<lparr>stdout := stdout w @ kv_Key kv @ newline\<rparr>)"

definition printLeafItemSummary :: "KeyValue \<Rightarrow> world \<Rightarrow> error option \<times> world" where
  "printLeafItemSummary kv w =
     (None, w\<lparr>stdout := stdout w
        @ ''Key: '' @ kv_Key kv @ newline
        @ ''Version: '' @ fmt_d (sint (kv_Version kv)) @ newline
        @ ''CreateRevision: '' @ fmt_d (sint (kv_CreateRevision kv)) @ newline
        @ ''ModRevision: '' @ fmt_d (sint (kv_ModRevision kv)) @ newline
        @ ''Lease: '' @ fmt_d (sint (kv_Lease kv)) @ newline\<rparr>)"

definition printLeafItemValue :: "externals \<Rightarrow> KeyValue \<Rightarrow> string \<Rightarrow> world \<Rightarrow> error option \<times> world" where
  "printLeafItemValue ex kv outMediaType w =
     (case convert ex outMediaType (kv_Value kv) of
        (written, typeMeta, err) \<Rightarrow> (err, w\<lparr>stdout := stdout w @ written\<rparr>))"

fun printKeySummaries_loop :: "externals \<Rightarrow> string list \<Rightarrow> KeySummary list \<Rightarrow> world \<Rightarrow> error option \<times> world" where
  "printKeySummaries_loop ex flds [] w = (None, w)"
| "printKeySummaries_loop ex flds (s # summaries) w =
     (case summarize ex s flds of
        Inl err \<Rightarrow> (Some err, w)
      | Inr summary \<Rightarrow>
          printKeySummaries_loop ex flds summaries (w\<lparr>stdout := stdout w @ summary @ newline\<rparr>))"

definition printKeySummaries :: "externals \<Rightarrow> string \<Rightarrow> string \<Rightarrow> string list \<Rightarrow> world \<Rightarrow> error option \<times> world" where
  "printKeySummaries ex filename keyPrefix flds w =
     (if length flds = 0 then (Some (Err ''no fields provided, nothing to output.''), w)
      else
        (case listKeySummaries ex filename keyPrefix w of
           (Inl err, w1) \<Rightarrow> (Some err, w1)
         | (Inr summaries, w1) \<Rightarrow> printKeySummaries_loop ex flds summaries w1))"

fun templateSummaries_loop :: "externals \<Rightarrow> string \<Rightarrow> KeySummary list \<Rightarrow> world \<Rightarrow> error option \<times> world" where
  "templateSummaries_loop ex templatestr [] w = (None, w)"
| "templateSummaries_loop ex templatestr (s # summaries) w =
     (case template_Execute ex templatestr s of
        (written, Some err) \<Rightarrow> (Some err, w\<lparr>stdout := stdout w @ written\<rparr>)
      | (written, None) \<Rightarrow>
          templateSummaries_loop ex templatestr summaries
            (w\<lparr>stdout := stdout w @ written @ newline\<rparr>))"

definition templateSummaries :: "externals \<Rightarrow> string \<Rightarrow> string \<Rightarrow> string \<Rightarrow> world \<Rightarrow> error option \<times> world" where
  "templateSummaries ex filename keyPrefix templatestr w =
     (case template_Parse ex templatestr of
        Some err \<Rightarrow> (Some err, w)
      | None \<Rightarrow>
          if length templatestr = 0
          then (Some (Err ''no template provided, nothing to output.''), w)
          else
            (case listKeySummaries ex filename keyPrefix w of
               (Inl err, w1) \<Rightarrow> (Some err, w1)
             | (Inr summaries, w1) \<Rightarrow> templateSummaries_loop ex templatestr summaries w1))"

section \<open>Operation selection\<close>

definition extractKvFromLeafItem :: "externals \<Rightarrow> bytes \<Rightarrow> error + KeyValue" where
  "extractKvFromLeafItem ex raw =
     (case Unmarshal ex raw of Inl err \<Rightarrow> Inl err | Inr kv \<Rightarrow> Inr kv)"

definition extractValidateAndRun :: "externals \<Rightarrow> extractOptions \<Rightarrow> world \<Rightarrow> error option \<times> world" where
  "extractValidateAndRun ex opts w =
     (case ToMediaType ex (opt_out opts) of
        Inl err \<Rightarrow>
          (Some (Err (''invalid --output '' @ opt_out opts @ '': '' @ Error err)), w)
      | Inr outMediaType \<Rightarrow>
          (let hasKey = (opt_key opts \<noteq> []);
               hasVersion = (opt_version opts \<noteq> []);
               hasKeyPrefix = (opt_keyPrefix opts \<noteq> []);
               hasFields = (opt_fields opts \<noteq> Key_field);
               hasTemplate = (opt_template opts \<noteq> [])
           in
             if opt_leafItem opts then
               (let w1 = w\<lparr>io := io w @ [ReadInput (opt_filename opts)]\<rparr> in
                case readInput ex (opt_filename opts) of
                  Inl err \<Rightarrow> (Some (Err (''unable to read input: '' @ Error err)), w1)
                | Inr raw \<Rightarrow>
                    (case extractKvFromLeafItem ex raw of
                       Inl err \<Rightarrow>
                         (Some (Err (''failed to extract etcd key-value record from boltdb leaf item: ''
                                     @ Error err)), w1)
                     | Inr kv \<Rightarrow>
                         if opt_metaSummary opts then printLeafItemSummary kv w1
                         else if opt_printKey opts then printLeafItemKey kv w1
                         else printLeafItemValue ex kv outMediaType w1))
             else if hasKey \<and> hasKeyPrefix then
               (Some (Err ''--keys-by-prefix and --key may not be used together''), w)
             else if hasKey \<and> opt_listVersions opts then
               printVersions ex (opt_filename opts) (opt_key opts) w
             else if hasKey then
               printValue ex (opt_filename opts) (opt_key opts) (opt_version opts) (opt_raw opts)
                 outMediaType w
             else if \<not> hasKey \<and> opt_listVersions opts then
               (Some (Err ''--list-versions may only be used with --key''), w)
             else if \<not> hasKey \<and> hasVersion then
               (Some (Err ''--version may only be used with --key''), w)
             else if hasTemplate \<and> hasFields then
               (Some (Err ''--template and --fields may not be used together''), w)
             else if hasTemplate then
               templateSummaries ex (opt_filename opts) (opt_keyPrefix opts) (opt_template opts) w
             else
               printKeySummaries ex (opt_filename opts) (opt_keyPrefix opts)
                 (strings_Split (opt_fields opts) (CHR '','')) w))"

section \<open>Specification vocabulary\<close>

text \<open>
  \<open>passes ex f vs a\<close> is \<open>Some a'\<close> when every entry of \<open>vs\<close> decodes and the visitor \<open>f\<close>,
  started in state \<open>a\<close>, neither fails nor asks to stop on any of them, and leaves the
  state \<open>a'\<close>; it is \<open>None\<close> otherwise. It describes the part of a store that a walk gets
  through.
\<close>

fun passes :: "externals \<Rightarrow> 'a visitor \<Rightarrow> bytes list \<Rightarrow> 'a \<Rightarrow> 'a option" where
  "passes ex f [] a = Some a"
| "passes ex f (v # vs) a =
     (case Unmarshal ex v of
        Inl err \<Rightarrow> None
      | Inr kv \<Rightarrow>
          (case f kv a of
             ((False, None), a') \<Rightarrow> passes ex f vs a'
           | ((True, None), a') \<Rightarrow> None
           | ((done, Some err), a') \<Rightarrow> None))"

text \<open>
  The invariant of the map \<open>m\<close> of \<open>listKeySummaries\<close>: one entry per key, and every
  summary is stored under its own key.
\<close>

definition keyed :: "(string \<times> KeySummary) list \<Rightarrow> bool" where
  "keyed m = (distinct (map fst m) \<and> list_all (\<lambda>p. Key (snd p) = fst p) m)"

text \<open>
  The decoding \<open>listKeySummaries\<close> applies to the value bytes of a record when it creates
  a summary: the structured value and the type metadata.
\<close>

definition decoded :: "externals \<Rightarrow> bytes \<Rightarrow> json option \<times> runtime_TypeMeta option" where
  "decoded ex b =
     (case convert ex (JsonMediaType ex) b of
        (buf, typeMeta, err) \<Rightarrow>
          (rawJsonUnmarshal ex (if err = None then TrimSpace ex buf else []), typeMeta))"

section \<open>A test store\<close>

text \<open>
  Test doubles for the external functions, used to run the model on concrete stores:
  \<open>files\<close> maps a file name to the entries of its bucket, \<open>table\<close> maps the bytes of an
  entry to the record they decode to; a file or an entry that is not listed fails to open
  or to decode. \<open>docs\<close> lists the JSON documents the doubles can read, each with the
  object and the type metadata it parses to; any other value is rejected as text that is
  neither JSON nor binary, so it has no decoded value. A document converted to JSON is
  written as it is, and serialising its object gives the document back (the documents
  are compact, with sorted keys).
\<close>

definition mkKeyValue :: "bytes \<Rightarrow> int64 \<Rightarrow> bytes \<Rightarrow> KeyValue" where
  "mkKeyValue k ver v =
     \<lparr>kv_Key = k, kv_CreateRevision = 0, kv_ModRevision = 0, kv_Version = ver,
      kv_Value = v, kv_Lease = 0\<rparr>"

definition test_externals :: "(string \<times> bytes list) list \<Rightarrow> (bytes \<times> KeyValue) list \<Rightarrow> (bytes \<times> json \<times> runtime_TypeMeta) list \<Rightarrow> externals" where
  "test_externals files table docs =
     \<lparr>ToMediaType = (\<lambda>out.
        if out = ''json'' then Inr ''application/json''
        else if out = ''yaml'' then Inr ''application/yaml''
        else if out = ''proto'' then Inr ''application/vnd.kubernetes.protobuf''
        else Inl (Err ''unrecognized format'')),
      JsonMediaType = ''application/json'',
      DetectAndExtract = (\<lambda>b.
        case map_of docs b of
          None \<Rightarrow>
            Inl (Err ''error reading input, does not appear to contain valid JSON or binary data'')
        | Some d \<Rightarrow> Inr (''application/json'', b)),
      Convert = (\<lambda>inMediaType outMediaType b.
        case map_of docs b of
          None \<Rightarrow> ([], None, Some (Err ''unable to decode''))
        | Some (obj, typeMeta) \<Rightarrow> (b, Some typeMeta, None)),
      readInput = (\<lambda>filename. Inl (Err ''no input'')),
      bolt_Open = (\<lambda>filename.
        case map_of files filename of
          None \<Rightarrow> Inl (Err ''open: no such file or directory'')
        | Some entries \<Rightarrow> Inr entries),
      Unmarshal = (\<lambda>raw.
        case map_of table raw of
          None \<Rightarrow> Inl (Err ''unexpected EOF'')
        | Some kv \<Rightarrow> Inr kv),
      ParseInt = (\<lambda>s.
        if s = ''1'' then Inr 1 else if s = ''2'' then Inr 2 else if s = ''3'' then Inr 3
        else Inl (Err ''invalid syntax'')),
      TrimSpace = (\<lambda>s. s),
      json_Unmarshal = (\<lambda>s.
        case map_of docs s of
          None \<Rightarrow> Inl (Err ''invalid character'')
        | Some (obj, typeMeta) \<Rightarrow> Inr obj),
      json_Marshal = (\<lambda>v.
        case v of
          None \<Rightarrow> Inr ''null''
        | Some obj \<Rightarrow>
            (case find (\<lambda>d. fst (snd d) = obj) docs of
               None \<Rightarrow> Inl (Err ''unsupported value'')
             | Some d \<Rightarrow> Inr (fst d))),
      template_Parse = (\<lambda>t. None),
      template_Execute = (\<lambda>t s. (Key s, None))\<rparr>"

text \<open>Two versions of a ConfigMap stored as JSON, and the objects they parse to.\<close>

definition cm1 :: bytes where
  \<open>cm1 = ''{"apiVersion":"v1","data":{"v":"1"},"kind":"ConfigMap"}''\<close>

definition cm2 :: bytes where
  \<open>cm2 = ''{"apiVersion":"v1","data":{"v":"22"},"kind":"ConfigMap"}''\<close>

definition cm_object :: "string \<Rightarrow> json" where
  "cm_object v =
     JObject [(''apiVersion'', JString ''v1''),
              (''data'', JObject [(''v'', JString v)]),
              (''kind'', JString ''ConfigMap'')]"

definition test_docs :: "(bytes \<times> json \<times> runtime_TypeMeta) list" where
  "test_docs =
     [(cm1, cm_object ''1'', \<lparr>APIVersion = ''v1'', Kind = ''ConfigMap''\<rparr>),
      (cm2, cm_object ''22'', \<lparr>APIVersion = ''v1'', Kind = ''ConfigMap''\<rparr>)]"

text \<open>
  The records. The values of \<open>/a\<close> are not JSON. The key \<open>/d\<close> was put with the value \<open>x\<close>,
  deleted (the tombstone \<open>d0\<close>) and put again with an empty value, so that it has two
  records of version 1.
\<close>

definition test_table :: "(bytes \<times> KeyValue) list" where
  "test_table =
     [(''a1'', mkKeyValue ''/a'' 1 ''x''),
      (''a2'', mkKeyValue ''/a'' 2 ''xy''),
      (''a3'', mkKeyValue ''/a'' 3 ''xyz''),
      (''b1'', mkKeyValue ''/b'' 1 []),
      (''c1'', mkKeyValue ''/c'' 1 cm1),
      (''c2'', mkKeyValue ''/c'' 2 cm2),
      (''d1'', mkKeyValue ''/d'' 1 ''x''),
      (''d0'', mkKeyValue ''/d'' 0 []),
      (''d2'', mkKeyValue ''/d'' 1 [])]"

definition test_files :: "(string \<times> bytes list) list" where
  "test_files =
     [(''db'', [''a1'', ''a2'']),
      (''db3'', [''a2'', ''b1'', ''a3'', ''a1'']),
      (''cm'', [''c1'', ''c2'']),
      (''dup'', [''d1'', ''d0'', ''d2'']),
      (''broken'', [''a1'', ''??'', ''a2'']),
      (''empty'', [])]"

definition test_ex :: externals where
  "test_ex = test_externals test_files test_table test_docs"

definition w0 :: world where
  "w0 = \<lparr>stdout = [], io = []\<rparr>"

definition test_opts :: extractOptions where
  "test_opts =
     \<lparr>opt_out = ''yaml'', opt_filename = ''db'', opt_key = [], opt_version = [],
      opt_keyPrefix = [], opt_listVersions = False, opt_leafItem = False,
      opt_printKey = False, opt_metaSummary = False, opt_raw = False,
      opt_fields = ''key'', opt_template = []\<rparr>"

section \<open>Properties of the store walker\<close>

lemma walk_loop_passes:
  "passes ex f pre a = Some a' \<Longrightarrow> walk_loop ex f (pre @ rest) a = walk_loop ex f rest a'"
  by (induction pre arbitrary: a)
     (auto split: sum.splits prod.splits option.splits bool.splits)

lemma walk_open_failure:
  "bolt_Open ex filename = Inl err \<Longrightarrow>
   walk ex filename f a w = ((Some err, a), w\<lparr>io := io w @ [BoltOpen filename]\<rparr>)"
  by (simp add: walk_def)

lemma walk_opened:
  "bolt_Open ex filename = Inr entries \<Longrightarrow>
   walk ex filename f a w = (walk_loop ex f entries a, w\<lparr>io := io w @ [BoltOpen filename]\<rparr>)"
  by (simp add: walk_def)

lemma walk_world:
  "snd (walk ex filename f a w) = w\<lparr>io := io w @ [BoltOpen filename]\<rparr>"
  by (simp add: walk_def Let_def split: sum.splits)

text \<open>
  C3 (as amended). When the visitor returns an error for a record, \<open>walk\<close> halts at that
  record: the visitor's state is the one it left there and no later entry is looked at.
  The error \<open>walk\<close> returns is a new one, \<open>Error handling key <key>\<close>, which names the
  record's key and does not contain the visitor's own error.
\<close>

theorem walk_visitor_error:
  assumes "bolt_Open ex filename = Inr (pre @ v # post)"
    and "passes ex f pre a = Some a'"
    and "Unmarshal ex v = Inr kv"
    and "f kv a' = ((stop, Some err), a'')"
  shows "walk ex filename f a w =
           ((Some (Err (''Error handling key '' @ kv_Key kv)), a''),
            w\<lparr>io := io w @ [BoltOpen filename]\<rparr>)"
proof -
  have "walk_loop ex f (pre @ v # post) a = walk_loop ex f (v # post) a'"
    using assms(2) by (rule walk_loop_passes)
  also have "\<dots> = (Some (Err (''Error handling key '' @ kv_Key kv)), a'')"
    using assms(3,4) by simp
  finally show ?thesis
    using assms(1) by (simp add: walk_opened)
qed

theorem walk_visitor_error_witness:
  "bolt_Open test_ex ''db'' = Inr ([''a1''] @ ''a2'' # [])
   \<and> passes test_ex (\<lambda>kv n. ((False, if n = 0 then None else Some (Err ''boom'')), Suc n))
        [''a1''] (0::nat) = Some 1
   \<and> Unmarshal test_ex ''a2'' = Inr (mkKeyValue ''/a'' 2 ''xy'')
   \<and> walk test_ex ''db''
        (\<lambda>kv n. ((False, if n = 0 then None else Some (Err ''boom'')), Suc n)) (0::nat) w0
      = ((Some (Err ''Error handling key /a''), 2), w0\<lparr>io := io w0 @ [BoltOpen ''db'']\<rparr>)"
  using walk_visitor_error [of test_ex "''db''" "[''a1'']" "''a2''" "[]"
      "\<lambda>kv n. ((False, if n = 0 then None else Some (Err ''boom'')), Suc n)" "0::nat" 1
      "mkKeyValue ''/a'' 2 ''xy''" False "Err ''boom''" 2 w0]
  by (simp add: test_ex_def test_externals_def test_files_def test_table_def mkKeyValue_def)

text \<open>
  C3 (as stated) fails: on the store \<open>db\<close> a visitor that fails with \<open>boom\<close> makes \<open>walk\<close>
  return \<open>Error handling key /a\<close>, not the visitor's error.
\<close>

theorem walk_visitor_error_counterexample:
  "fst (fst (walk test_ex ''db'' (\<lambda>kv s. ((False, Some (Err ''boom'')), s)) () w0))
     = Some (Err ''Error handling key /a'')
   \<and> fst (fst (walk test_ex ''db'' (\<lambda>kv s. ((False, Some (Err ''boom'')), s)) () w0))
     \<noteq> Some (Err ''boom'')"
  by (simp add: walk_def test_ex_def test_externals_def test_files_def test_table_def
      mkKeyValue_def)

text \<open>
  C4 (as amended). When an entry fails to decode, \<open>walk\<close> aborts at that entry (the
  visitor's state is the one left by the entries before it) and returns the decoder's own
  error unchanged: it is not wrapped and names no key.
\<close>

theorem walk_decode_error:
  assumes "bolt_Open ex filename = Inr (pre @ v # post)"
    and "passes ex f pre a = Some a'"
    and "Unmarshal ex v = Inl err"
  shows "walk ex filename f a w =
           ((Some err, a'), w\<lparr>io := io w @ [BoltOpen filename]\<rparr>)"
proof -
  have "walk_loop ex f (pre @ v # post) a = walk_loop ex f (v # post) a'"
    using assms(2) by (rule walk_loop_passes)
  also have "\<dots> = (Some err, a')"
    using assms(3) by simp
  finally show ?thesis
    using assms(1) by (simp add: walk_opened)
qed

theorem walk_decode_error_witness:
  "bolt_Open test_ex ''broken'' = Inr ([''a1''] @ ''??'' # [''a2''])
   \<and> passes test_ex (listVersions_visit ''/a'') [''a1''] [] = Some [1]
   \<and> Unmarshal test_ex ''??'' = Inl (Err ''unexpected EOF'')
   \<and> walk test_ex ''broken'' (listVersions_visit ''/a'') [] w0
      = ((Some (Err ''unexpected EOF''), [1]), w0\<lparr>io := io w0 @ [BoltOpen ''broken'']\<rparr>)"
  using walk_decode_error [of test_ex "''broken''" "[''a1'']" "''??''" "[''a2'']"
      "listVersions_visit ''/a''" "[]" "[1]" "Err ''unexpected EOF''" w0]
  by (simp add: test_ex_def test_externals_def test_files_def test_table_def mkKeyValue_def
      listVersions_visit_def)

text \<open>
  C4 (as stated) fails: on the store \<open>broken\<close>, whose second entry does not decode, the
  error \<open>walk\<close> returns is exactly the error of \<open>Unmarshal\<close>, with no key in it.
\<close>

theorem walk_decode_error_counterexample:
  "Unmarshal test_ex ''??'' = Inl (Err ''unexpected EOF'')
   \<and> fst (fst (walk test_ex ''broken'' (listVersions_visit ''/a'') [] w0))
     = Some (Err ''unexpected EOF'')"
  by (simp add: walk_def test_ex_def test_externals_def test_files_def test_table_def
      mkKeyValue_def listVersions_visit_def)

section \<open>Properties of operation selection\<close>

text \<open>
  C2 (as amended). When \<open>--list-versions\<close> and \<open>--version\<close> are both set, \<open>--leaf-item\<close> is
  not set, and \<open>--key\<close> is either not set or set together with \<open>--keys-by-prefix\<close>, the
  program fails with a usage error and leaves the world as it was: nothing is opened,
  read or written, whatever the stores contain. The error is \<open>invalid --output\<close> when the
  output format is not recognised, and otherwise the one of the first failing check.
\<close>

theorem listVersions_version_usage_error:
  assumes "opt_listVersions opts"
    and "opt_version opts \<noteq> []"
    and "\<not> opt_leafItem opts"
    and "opt_key opts = [] \<or> opt_keyPrefix opts \<noteq> []"
  shows "extractValidateAndRun ex opts w =
           (Some (case ToMediaType ex (opt_out opts) of
                    Inl err \<Rightarrow> Err (''invalid --output '' @ opt_out opts @ '': '' @ Error err)
                  | Inr outMediaType \<Rightarrow>
                      if opt_key opts \<noteq> []
                      then Err ''--keys-by-prefix and --key may not be used together''
                      else Err ''--list-versions may only be used with --key''),
            w)"
  using assms by (auto simp add: extractValidateAndRun_def Let_def split: sum.splits)

theorem listVersions_version_usage_error_witness:
  "opt_listVersions (test_opts\<lparr>opt_listVersions := True, opt_version := ''1''\<rparr>)
   \<and> opt_version (test_opts\<lparr>opt_listVersions := True, opt_version := ''1''\<rparr>) \<noteq> []
   \<and> \<not> opt_leafItem (test_opts\<lparr>opt_listVersions := True, opt_version := ''1''\<rparr>)
   \<and> opt_key (test_opts\<lparr>opt_listVersions := True, opt_version := ''1''\<rparr>) = []
   \<and> extractValidateAndRun test_ex (test_opts\<lparr>opt_listVersions := True, opt_version := ''1''\<rparr>) w0
      = (Some (Err ''--list-versions may only be used with --key''), w0)"
  using listVersions_version_usage_error
    [of "test_opts\<lparr>opt_listVersions := True, opt_version := ''1''\<rparr>" test_ex w0]
  by (simp add: test_opts_def test_ex_def test_externals_def)

text \<open>
  C2 (as stated) fails when \<open>--key\<close> is set as well: the versions of the key are listed,
  \<open>--version\<close> is ignored, the store is opened and there is no error.
\<close>

theorem listVersions_version_counterexample:
  "opt_listVersions (test_opts\<lparr>opt_key := ''/a'', opt_listVersions := True, opt_version := ''1''\<rparr>)
   \<and> opt_version (test_opts\<lparr>opt_key := ''/a'', opt_listVersions := True, opt_version := ''1''\<rparr>) \<noteq> []
   \<and> extractValidateAndRun test_ex
        (test_opts\<lparr>opt_key := ''/a'', opt_listVersions := True, opt_version := ''1''\<rparr>) w0
      = (None, \<lparr>stdout = [CHR ''1'', CHR 0x0A, CHR ''2'', CHR 0x0A], io = [BoltOpen ''db'']\<rparr>)"
  by code_simp

text \<open>
  C5 (as amended). When a non-empty \<open>--template\<close> is given together with a field list
  other than \<open>key\<close> (the default, which the program cannot tell from an explicit \<open>key\<close>),
  \<open>--leaf-item\<close> is not set, and \<open>--key\<close> is either not set or set together with
  \<open>--keys-by-prefix\<close>, the program fails with a usage error and leaves the world as it
  was: nothing is opened, read or written. The error is \<open>invalid --output\<close> when the
  output format is not recognised, and otherwise the one of the first failing check.
\<close>

theorem template_fields_usage_error:
  assumes "opt_template opts \<noteq> []"
    and "opt_fields opts \<noteq> Key_field"
    and "\<not> opt_leafItem opts"
    and "opt_key opts = [] \<or> opt_keyPrefix opts \<noteq> []"
  shows "extractValidateAndRun ex opts w =
           (Some (case ToMediaType ex (opt_out opts) of
                    Inl err \<Rightarrow> Err (''invalid --output '' @ opt_out opts @ '': '' @ Error err)
                  | Inr outMediaType \<Rightarrow>
                      if opt_key opts \<noteq> []
                      then Err ''--keys-by-prefix and --key may not be used together''
                      else if opt_listVersions opts
                      then Err ''--list-versions may only be used with --key''
                      else if opt_version opts \<noteq> []
                      then Err ''--version may only be used with --key''
                      else Err ''--template and --fields may not be used together''),
            w)"
  using assms by (auto simp add: extractValidateAndRun_def Let_def split: sum.splits)

theorem template_fields_usage_error_witness:
  "opt_template (test_opts\<lparr>opt_template := ''{{.Key}}'', opt_fields := ''key,value''\<rparr>) \<noteq> []
   \<and> opt_fields (test_opts\<lparr>opt_template := ''{{.Key}}'', opt_fields := ''key,value''\<rparr>) \<noteq> Key_field
   \<and> \<not> opt_leafItem (test_opts\<lparr>opt_template := ''{{.Key}}'', opt_fields := ''key,value''\<rparr>)
   \<and> opt_key (test_opts\<lparr>opt_template := ''{{.Key}}'', opt_fields := ''key,value''\<rparr>) = []
   \<and> extractValidateAndRun test_ex
        (test_opts\<lparr>opt_template := ''{{.Key}}'', opt_fields := ''key,value''\<rparr>) w0
      = (Some (Err ''--template and --fields may not be used together''), w0)"
  using template_fields_usage_error
    [of "test_opts\<lparr>opt_template := ''{{.Key}}'', opt_fields := ''key,value''\<rparr>" test_ex w0]
  by (simp add: test_opts_def test_ex_def test_externals_def Key_field_def)

text \<open>
  C5 (as stated) fails for the field list \<open>key\<close>: with a template and \<open>--fields=key\<close> the
  template is rendered, the store is opened and there is no error.
\<close>

theorem template_fields_counterexample:
  "opt_template (test_opts\<lparr>opt_template := ''{{.Key}}'', opt_fields := ''key''\<rparr>) \<noteq> []
   \<and> extractValidateAndRun test_ex
        (test_opts\<lparr>opt_template := ''{{.Key}}'', opt_fields := ''key''\<rparr>) w0
      = (None, \<lparr>stdout = [CHR ''/'', CHR ''a'', CHR 0x0A], io = [BoltOpen ''db'']\<rparr>)"
  by code_simp

section \<open>Walks over a store that decodes\<close>

text \<open>
  \<open>map (Unmarshal ex) entries = map Inr kvs\<close> says that every entry of the store decodes,
  and that \<open>kvs\<close> are the records, in physical order.
\<close>

lemma listVersions_loop:
  "map (Unmarshal ex) entries = map Inr kvs \<Longrightarrow>
   walk_loop ex (listVersions_visit key) entries acc =
     (None, acc @ map kv_Version (filter (\<lambda>kv. kv_Key kv = key) kvs))"
proof (induction entries arbitrary: kvs acc)
  case Nil
  then show ?case by simp
next
  case (Cons e entries)
  then obtain kv kvs' where kvs: "kvs = kv # kvs'" "Unmarshal ex e = Inr kv"
    "map (Unmarshal ex) entries = map Inr kvs'"
    by (cases kvs) auto
  show ?case
    using Cons.IH [OF kvs(3)] kvs(1,2) by (simp add: listVersions_visit_def)
qed

lemma listVersions_decoded:
  assumes "bolt_Open ex filename = Inr entries"
    and "map (Unmarshal ex) entries = map Inr kvs"
  shows "listVersions ex filename key w =
           (Inr (map kv_Version (filter (\<lambda>kv. kv_Key kv = key) kvs)),
            w\<lparr>io := io w @ [BoltOpen filename]\<rparr>)"
  using assms by (simp add: listVersions_def walk_opened listVersions_loop)

lemma getValue_loop:
  "map (Unmarshal ex) entries = map Inr kvs \<Longrightarrow>
   walk_loop ex (getValue_visit key version) entries s =
     (None, case find (\<lambda>kv. kv_Key kv = key \<and> kv_Version kv = version) kvs of
              None \<Rightarrow> s
            | Some kv \<Rightarrow> (kv_Value kv, True))"
proof (induction entries arbitrary: kvs s)
  case Nil
  then show ?case by simp
next
  case (Cons e entries)
  then obtain kv kvs' where kvs: "kvs = kv # kvs'" "Unmarshal ex e = Inr kv"
    "map (Unmarshal ex) entries = map Inr kvs'"
    by (cases kvs) auto
  show ?case
    using Cons.IH [OF kvs(3)] kvs(1,2) by (simp add: getValue_visit_def)
qed

lemma getValue_decoded:
  assumes "bolt_Open ex filename = Inr entries"
    and "map (Unmarshal ex) entries = map Inr kvs"
  shows "getValue ex filename key version w =
           (case find (\<lambda>kv. kv_Key kv = key \<and> kv_Version kv = version) kvs of
              None \<Rightarrow> Inl (Err (''key not found: '' @ key))
            | Some kv \<Rightarrow> Inr (kv_Value kv),
            w\<lparr>io := io w @ [BoltOpen filename]\<rparr>)"
  using assms
  by (simp add: getValue_def walk_opened getValue_loop split: option.splits)

section \<open>Properties of the presentation layer\<close>

lemma summarize_field_recognized:
  "field \<in> set SummaryFields \<Longrightarrow> \<exists>v. summarize_field ex s field = Inr v"
  by (auto simp add: summarize_field_def SummaryFields_def)

lemma summarize_field_unrecognized:
  "field \<notin> set SummaryFields \<Longrightarrow>
   summarize_field ex s field = Inl (Err (''unrecognized field: '' @ field))"
  by (simp add: summarize_field_def SummaryFields_def)

lemma summarize_loop_unrecognized:
  "set good \<subseteq> set SummaryFields \<Longrightarrow> bad \<notin> set SummaryFields \<Longrightarrow>
   summarize_loop ex s (good @ bad # rest) = Inl (Err (''unrecognized field: '' @ bad))"
proof (induction good)
  case Nil
  then show ?case by (simp add: summarize_field_unrecognized)
next
  case (Cons field good)
  then obtain v where "summarize_field ex s field = Inr v"
    using summarize_field_recognized [of field ex s] by auto
  then show ?case using Cons by simp
qed

lemma listKeySummaries_world:
  "snd (listKeySummaries ex filename pre w) = w\<lparr>io := io w @ [BoltOpen filename]\<rparr>"
  using walk_world [of ex filename "listKeySummaries_visit ex pre" "[]" w]
  by (auto simp add: listKeySummaries_def split: prod.splits option.splits)

text \<open>
  C9 (as amended). With a field list whose first unrecognized name is \<open>bad\<close>, the listing
  writes nothing to the output and opens the store once. It fails with
  \<open>unrecognized field: bad\<close> when the aggregation returns at least one summary; when the
  aggregation returns no summary it succeeds, and when the walk fails it returns the
  error of the walk.
\<close>

theorem printKeySummaries_unrecognized_field:
  assumes "set good \<subseteq> set SummaryFields"
    and "bad \<notin> set SummaryFields"
  shows "printKeySummaries ex filename keyPrefix (good @ bad # rest) w =
           (case fst (listKeySummaries ex filename keyPrefix w) of
              Inl err \<Rightarrow> Some err
            | Inr [] \<Rightarrow> None
            | Inr (s # summaries) \<Rightarrow> Some (Err (''unrecognized field: '' @ bad)),
            w\<lparr>io := io w @ [BoltOpen filename]\<rparr>)"
proof -
  obtain r w1 where r: "listKeySummaries ex filename keyPrefix w = (r, w1)"
    by (cases "listKeySummaries ex filename keyPrefix w")
  then have w1: "w1 = w\<lparr>io := io w @ [BoltOpen filename]\<rparr>"
    using listKeySummaries_world [of ex filename keyPrefix w] by simp
  have fail: "summarize ex s (good @ bad # rest) = Inl (Err (''unrecognized field: '' @ bad))"
    for s
    using assms by (simp add: summarize_def summarize_loop_unrecognized)
  show ?thesis
    using r w1 fail
    by (simp add: printKeySummaries_def split: sum.splits list.splits)
qed

theorem printKeySummaries_unrecognized_field_witness:
  "set [''key''] \<subseteq> set SummaryFields
   \<and> ''bogus'' \<notin> set SummaryFields
   \<and> printKeySummaries test_ex ''db'' [] ([''key''] @ ''bogus'' # []) w0
      = (Some (Err ''unrecognized field: bogus''), w0\<lparr>io := io w0 @ [BoltOpen ''db'']\<rparr>)"
proof -
  have "fst (listKeySummaries test_ex ''db'' [] w0) =
          Inr [\<lparr>Key = ''/a'', Version = 2, Value = None, TypeMeta = None,
                Stats = \<lparr>VersionCount = 2, KeySize = 2, ValueSize = 2,
                         AllVersionsKeySize = 4, AllVersionsValueSize = 3\<rparr>\<rparr>]"
    by code_simp
  then show ?thesis
    using printKeySummaries_unrecognized_field [of "[''key'']" "''bogus''" test_ex "''db''" "[]" "[]" w0]
    by (simp add: SummaryFields_def Key_field_def ValueSize_field_def
        AllVersionsValueSize_field_def VersionCount_field_def Value_field_def)
qed

text \<open>
  C9 (as stated) fails on a store without records: the field list \<open>bogus\<close> is never looked
  at and the listing succeeds.
\<close>

theorem printKeySummaries_unrecognized_field_counterexample:
  "''bogus'' \<notin> set SummaryFields
   \<and> printKeySummaries test_ex ''empty'' [] [''bogus''] w0
      = (None, \<lparr>stdout = [], io = [BoltOpen ''empty'']\<rparr>)"
  by code_simp

lemma getValue_passes:
  assumes "map (Unmarshal ex) pre = map Inr kvs"
    and "find (\<lambda>r. kv_Key r = key \<and> kv_Version r = version) kvs = None"
  shows "passes ex (getValue_visit key version) pre s = Some s"
  using assms
proof (induction pre arbitrary: kvs)
  case Nil
  then show ?case by simp
next
  case (Cons e pre)
  then obtain kv kvs' where kvs: "kvs = kv # kvs'" "Unmarshal ex e = Inr kv"
    "map (Unmarshal ex) pre = map Inr kvs'"
    by (cases kvs) auto
  have "\<not> (kv_Key kv = key \<and> kv_Version kv = version)"
    and rest: "find (\<lambda>r. kv_Key r = key \<and> kv_Version r = version) kvs' = None"
    using Cons.prems(2) kvs(1) by (auto split: if_splits)
  then show ?case
    using Cons.IH [OF kvs(3) rest] kvs(2) by (simp add: getValue_visit_def)
qed

text \<open>
  \<open>getValue\<close> stops at the first record with the key and the version: the entries after it
  are not decoded.
\<close>

lemma getValue_first_match:
  assumes "bolt_Open ex filename = Inr (pre @ e # post)"
    and "map (Unmarshal ex) pre = map Inr kvs"
    and "find (\<lambda>r. kv_Key r = key \<and> kv_Version r = version) kvs = None"
    and "Unmarshal ex e = Inr kv"
    and "kv_Key kv = key" and "kv_Version kv = version"
  shows "getValue ex filename key version w =
           (Inr (kv_Value kv), w\<lparr>io := io w @ [BoltOpen filename]\<rparr>)"
proof -
  have "walk_loop ex (getValue_visit key version) (pre @ e # post) ([], False)
          = walk_loop ex (getValue_visit key version) (e # post) ([], False)"
    using getValue_passes [OF assms(2,3)] by (rule walk_loop_passes)
  also have "\<dots> = (None, (kv_Value kv, True))"
    using assms(4,5,6) by (simp add: getValue_visit_def)
  finally show ?thesis
    using assms(1) by (simp add: getValue_def walk_opened)
qed

text \<open>
  C10 (as amended). Let \<open>v\<close> be the version \<open>printValue\<close> resolves: the parsed number when a
  version is given, and otherwise the maximum of the key's versions, for which every entry
  of the store has to decode. If the store opens, the entries before the first record
  with the requested key and version \<open>v\<close> decode, and that first record has an empty
  value, then \<open>printValue\<close> fails with \<open>0 byte value\<close> and writes nothing, although the
  record exists. Records with the same key and version that come later are not looked at.
\<close>

theorem printValue_empty_value:
  assumes "bolt_Open ex filename = Inr (pre @ e # post)"
    and "map (Unmarshal ex) pre = map Inr kvs"
    and "find (\<lambda>r. kv_Key r = key \<and> kv_Version r = v) kvs = None"
    and "Unmarshal ex e = Inr kv"
    and "kv_Key kv = key" and "kv_Version kv = v"
    and "kv_Value kv = []"
    and "if version = []
         then map (Unmarshal ex) post = map Inr kvs'
              \<and> v = maxInSlice (map kv_Version
                      (filter (\<lambda>r. kv_Key r = key) (kvs @ kv # kvs')))
         else ParseInt ex version = Inr v"
  shows "fst (printValue ex filename key version raw outMediaType w) = Some (Err ''0 byte value'')
         \<and> stdout (snd (printValue ex filename key version raw outMediaType w)) = stdout w"
proof -
  have get: "getValue ex filename key v w1 =
               (Inr [], w1\<lparr>io := io w1 @ [BoltOpen filename]\<rparr>)" for w1
    using getValue_first_match [OF assms(1,2,3,4,5,6), of w1] assms(7) by simp
  show ?thesis
  proof (cases "version = []")
    case True
    then have post: "map (Unmarshal ex) post = map Inr kvs'"
      and v: "v = maxInSlice (map kv_Version (filter (\<lambda>r. kv_Key r = key) (kvs @ kv # kvs')))"
      using assms(8) by simp_all
    have "map (Unmarshal ex) (pre @ e # post) = map Inr (kvs @ kv # kvs')"
      using assms(2,4) post by simp
    then have "listVersions ex filename key w =
                 (Inr (map kv_Version (filter (\<lambda>r. kv_Key r = key) (kvs @ kv # kvs'))),
                  w\<lparr>io := io w @ [BoltOpen filename]\<rparr>)"
      using assms(1) by (rule listVersions_decoded [rotated])
    then show ?thesis
      using True v assms(5) get by (simp add: printValue_def)
  next
    case False
    then show ?thesis
      using assms(8) get by (simp add: printValue_def)
  qed
qed

theorem printValue_empty_value_witness:
  "bolt_Open test_ex ''db3'' = Inr ([''a2''] @ ''b1'' # [''a3'', ''a1''])
   \<and> map (Unmarshal test_ex) [''a2''] = map Inr [mkKeyValue ''/a'' 2 ''xy'']
   \<and> find (\<lambda>r. kv_Key r = ''/b'' \<and> kv_Version r = 1) [mkKeyValue ''/a'' 2 ''xy''] = None
   \<and> Unmarshal test_ex ''b1'' = Inr (mkKeyValue ''/b'' 1 [])
   \<and> map (Unmarshal test_ex) [''a3'', ''a1'']
       = map Inr [mkKeyValue ''/a'' 3 ''xyz'', mkKeyValue ''/a'' 1 ''x'']
   \<and> fst (printValue test_ex ''db3'' ''/b'' [] True ''application/json'' w0)
       = Some (Err ''0 byte value'')
   \<and> stdout (snd (printValue test_ex ''db3'' ''/b'' [] True ''application/json'' w0)) = stdout w0"
proof -
  have h1: "bolt_Open test_ex ''db3'' = Inr ([''a2''] @ ''b1'' # [''a3'', ''a1''])"
    by code_simp
  have h2: "map (Unmarshal test_ex) [''a2''] = map Inr [mkKeyValue ''/a'' 2 ''xy'']"
    by code_simp
  have h3: "find (\<lambda>r. kv_Key r = ''/b'' \<and> kv_Version r = 1) [mkKeyValue ''/a'' 2 ''xy''] = None"
    by code_simp
  have h4: "Unmarshal test_ex ''b1'' = Inr (mkKeyValue ''/b'' 1 [])"
    by code_simp
  have h5: "kv_Key (mkKeyValue ''/b'' 1 []) = ''/b''"
    and h6: "kv_Version (mkKeyValue ''/b'' 1 []) = 1"
    and h7: "kv_Value (mkKeyValue ''/b'' 1 []) = []"
    by (simp_all add: mkKeyValue_def)
  have post: "map (Unmarshal test_ex) [''a3'', ''a1'']
                = map Inr [mkKeyValue ''/a'' 3 ''xyz'', mkKeyValue ''/a'' 1 ''x'']"
    by code_simp
  have "1 = maxInSlice (map kv_Version (filter (\<lambda>r. kv_Key r = ''/b'')
              ([mkKeyValue ''/a'' 2 ''xy''] @ mkKeyValue ''/b'' 1 []
                 # [mkKeyValue ''/a'' 3 ''xyz'', mkKeyValue ''/a'' 1 ''x''])))"
    by code_simp
  then have h8: "if ([]::string) = []
      then map (Unmarshal test_ex) [''a3'', ''a1'']
             = map Inr [mkKeyValue ''/a'' 3 ''xyz'', mkKeyValue ''/a'' 1 ''x'']
           \<and> 1 = maxInSlice (map kv_Version (filter (\<lambda>r. kv_Key r = ''/b'')
                   ([mkKeyValue ''/a'' 2 ''xy''] @ mkKeyValue ''/b'' 1 []
                      # [mkKeyValue ''/a'' 3 ''xyz'', mkKeyValue ''/a'' 1 ''x''])))
      else ParseInt test_ex [] = Inr 1"
    using post by simp
  show ?thesis
    using printValue_empty_value [OF h1 h2 h3 h4 h5 h6 h7 h8, of True "''application/json''" w0]
      h1 h2 h3 h4 post
    by simp
qed

text \<open>
  C10 (as stated) fails when the empty record is not the first match. In the store \<open>dup\<close>
  the key \<open>/d\<close> was put with the value \<open>x\<close>, deleted and put again with an empty value:
  a record with the key and the resolved version 1 and an empty value exists, and
  \<open>printValue\<close> prints \<open>x\<close> and succeeds.
\<close>

theorem printValue_empty_value_counterexample:
  "bolt_Open test_ex ''dup'' = Inr [''d1'', ''d0'', ''d2'']
   \<and> Unmarshal test_ex ''d2'' = Inr (mkKeyValue ''/d'' 1 [])
   \<and> fst (listVersions test_ex ''dup'' ''/d'' w0) = Inr [1, 0, 1]
   \<and> maxInSlice [1, 0, 1] = 1
   \<and> printValue test_ex ''dup'' ''/d'' [] True ''application/json'' w0
      = (None, \<lparr>stdout = [CHR ''x'', CHR 0x0A], io = [BoltOpen ''dup'', BoltOpen ''dup'']\<rparr>)"
  by code_simp

section \<open>Properties of the key aggregator\<close>

subsection \<open>Association lists\<close>

lemma set_update_cases:
  "p \<in> set (AList.update k v m) \<Longrightarrow> p = (k, v) \<or> p \<in> set m"
  by (induction m) (auto split: if_splits)

lemma map_of_filter_key:
  "Q k \<Longrightarrow> map_of (filter (\<lambda>p. Q (fst p)) n) k = map_of n k"
  by (induction n) auto

lemma update_filter_kept:
  "Q k \<Longrightarrow>
   AList.update k v (filter (\<lambda>p. Q (fst p)) n) = filter (\<lambda>p. Q (fst p)) (AList.update k v n)"
  by (induction n) auto

lemma update_filter_dropped:
  "\<not> Q k \<Longrightarrow> filter (\<lambda>p. Q (fst p)) (AList.update k v n) = filter (\<lambda>p. Q (fst p)) n"
  by (induction n) auto

lemma keyed_Nil: "keyed []"
  by (simp add: keyed_def)

lemma keyed_update:
  assumes "keyed m" and "Key s = k"
  shows "keyed (AList.update k s m)"
proof -
  have "distinct (map fst (AList.update k s m))"
    using assms(1) by (simp add: keyed_def distinct_update)
  moreover have "Key (snd p) = fst p" if "p \<in> set (AList.update k s m)" for p
    using set_update_cases [OF that] assms by (auto simp add: keyed_def list_all_iff)
  ultimately show ?thesis
    by (simp add: keyed_def list_all_iff)
qed

lemma keyed_map_of:
  "keyed m \<Longrightarrow> map_of m k = Some s \<Longrightarrow> Key s = k"
  by (auto simp add: keyed_def list_all_iff dest: map_of_SomeD)

lemma keyed_values:
  "keyed m \<Longrightarrow>
   map snd (filter (\<lambda>p. Q (fst p)) m) = filter (\<lambda>s. Q (Key s)) (map snd m)"
  by (induction m) (auto simp add: keyed_def)


subsection \<open>The sort\<close>

lemma strings_Compare_le: "strings_Compare a b \<le> 0 \<longleftrightarrow> a \<le> b"
  by (auto simp add: strings_Compare_def)

lemma sort_insert_Key:
  "sort_insert (\<lambda>a b. strings_Compare (Key a) (Key b) \<le> 0) x xs = insort_key Key x xs"
  by (induction xs) (simp_all add: strings_Compare_le)

lemma getSortedKeySummaries_sort_key:
  "getSortedKeySummaries m = sort_key Key (map snd m)"
proof -
  have "foldr (sort_insert (\<lambda>a b. strings_Compare (Key a) (Key b) \<le> 0)) xs []
          = foldr (insort_key Key) xs []" for xs :: "KeySummary list"
    by (induction xs) (simp_all add: sort_insert_Key)
  then show ?thesis
    by (simp add: getSortedKeySummaries_def sort_Slice_def sort_key_def)
qed

lemma getSortedKeySummaries_sorted:
  assumes "keyed m"
  shows "sorted_wrt (<) (map Key (getSortedKeySummaries m))"
proof -
  have keys: "map Key (map snd m) = map fst m"
    using assms by (induction m) (auto simp add: keyed_def)
  have "distinct (map fst m)"
    using assms by (simp add: keyed_def)
  then have "distinct (map Key (map snd m))"
    by (simp only: keys)
  then have "distinct (map Key (sort_key Key (map snd m)))"
    by (simp only: distinct_map distinct_sort set_sort)
  moreover have "sorted (map Key (sort_key Key (map snd m)))"
    by (rule sorted_sort_key)
  ultimately show ?thesis
    by (simp add: strict_sorted_iff getSortedKeySummaries_sort_key)
qed

lemma getSortedKeySummaries_filter:
  assumes "keyed m"
  shows "getSortedKeySummaries (filter (\<lambda>p. Q (fst p)) m)
           = filter (\<lambda>s. Q (Key s)) (getSortedKeySummaries m)"
  using assms by (simp add: getSortedKeySummaries_sort_key keyed_values filter_sort)

text \<open>
  The order in which \<open>range m\<close> yields the summaries does not matter: two enumerations of
  the same map give the same sorted slice.
\<close>

lemma getSortedKeySummaries_range_order:
  assumes "keyed m" and "mset m' = mset m"
  shows "getSortedKeySummaries m' = getSortedKeySummaries m"
proof -
  have keys: "map Key (map snd m) = map fst m"
    using assms(1) by (induction m) (auto simp add: keyed_def)
  have "distinct (map fst m)"
    using assms(1) by (simp add: keyed_def)
  then have "distinct (map Key (map snd m))"
    by (simp only: keys)
  then have inj: "inj_on Key (set (map snd m))" and dist: "distinct (map snd m)"
    by (simp_all only: distinct_map)
  have vals: "mset (map snd m') = mset (map snd m)"
    using assms(2) by simp
  then have set_eq: "set (map snd m') = set (map snd m)"
    by (rule mset_eq_setD)
  have dist': "distinct (map snd m')"
    using vals dist by (metis mset_eq_imp_distinct_iff)
  let ?xs = "sort_key Key (map snd m')" and ?ys = "sort_key Key (map snd m)"
  have "?xs = ?ys"
  proof (rule map_sorted_distinct_set_unique [where f = Key])
    show "inj_on Key (set ?xs \<union> set ?ys)"
      using inj set_eq by (simp only: set_sort Un_absorb)
    show "sorted (map Key ?xs)" "sorted (map Key ?ys)"
      by (rule sorted_sort_key)+
    show "distinct (map Key ?xs)"
      using inj set_eq dist' by (simp only: distinct_map distinct_sort set_sort)
    show "distinct (map Key ?ys)"
      using inj dist by (simp only: distinct_map distinct_sort set_sort)
    show "set ?xs = set ?ys"
      using set_eq by (simp only: set_sort)
  qed
  then show ?thesis
    by (simp only: getSortedKeySummaries_sort_key)
qed

subsection \<open>The visitor and the walk\<close>

lemma listKeySummaries_visit_continue:
  "fst (listKeySummaries_visit ex pre kv m) = (False, None)"
  by (simp add: listKeySummaries_visit_def Let_def split: option.splits prod.splits)

lemma listKeySummaries_loop_Cons:
  "walk_loop ex (listKeySummaries_visit ex pre) (v # vs) m =
     (case Unmarshal ex v of
        Inl err \<Rightarrow> (Some err, m)
      | Inr kv \<Rightarrow>
          walk_loop ex (listKeySummaries_visit ex pre) vs
            (snd (listKeySummaries_visit ex pre kv m)))"
proof (cases "Unmarshal ex v")
  case (Inl err)
  then show ?thesis by simp
next
  case (Inr kv)
  obtain m' where "listKeySummaries_visit ex pre kv m = ((False, None), m')"
    using listKeySummaries_visit_continue [of ex pre kv m]
    by (cases "listKeySummaries_visit ex pre kv m") auto
  then show ?thesis using Inr by simp
qed

lemma listKeySummaries_visit_keyed:
  assumes "keyed m"
  shows "keyed (snd (listKeySummaries_visit ex pre kv m))"
proof (cases "map_of m (kv_Key kv)")
  case None
  then show ?thesis
    using assms
    by (auto simp add: listKeySummaries_visit_def Let_def split: prod.splits intro!: keyed_update)
next
  case (Some ks)
  then have "Key ks = kv_Key kv"
    using assms by (rule keyed_map_of [rotated])
  then show ?thesis
    using assms Some
    by (auto simp add: listKeySummaries_visit_def Let_def intro!: keyed_update)
qed

lemma listKeySummaries_loop_keyed:
  "keyed m \<Longrightarrow> keyed (snd (walk_loop ex (listKeySummaries_visit ex pre) entries m))"
proof (induction entries arbitrary: m)
  case Nil
  then show ?case by simp
next
  case (Cons v vs)
  show ?case
  proof (cases "Unmarshal ex v")
    case (Inl err)
    then show ?thesis
      using Cons.prems by (simp add: listKeySummaries_loop_Cons del: walk_loop.simps)
  next
    case (Inr kv)
    then show ?thesis
      using Cons.IH [OF listKeySummaries_visit_keyed [OF Cons.prems, of ex pre kv]]
      by (simp add: listKeySummaries_loop_Cons del: walk_loop.simps)
  qed
qed

subsection \<open>Order of the result\<close>

text \<open>
  C7. Whenever \<open>listKeySummaries\<close> returns summaries (for any prefix, the empty one
  included), their keys are strictly ascending in the byte-wise lexicographic order, so
  no key occurs twice.
\<close>

theorem listKeySummaries_sorted:
  assumes "fst (listKeySummaries ex filename pre w) = Inr summaries"
  shows "sorted_wrt (<) (map Key summaries) \<and> distinct (map Key summaries)"
proof (cases "bolt_Open ex filename")
  case (Inl err)
  then show ?thesis
    using assms by (simp add: listKeySummaries_def walk_open_failure)
next
  case (Inr entries)
  obtain e m where loop: "walk_loop ex (listKeySummaries_visit ex pre) entries [] = (e, m)"
    by (cases "walk_loop ex (listKeySummaries_visit ex pre) entries []")
  have "keyed m"
    using listKeySummaries_loop_keyed [OF keyed_Nil, of ex pre entries] loop by simp
  then have "sorted_wrt (<) (map Key (getSortedKeySummaries m))"
    by (rule getSortedKeySummaries_sorted)
  moreover have "summaries = getSortedKeySummaries m"
    using assms Inr loop
    by (auto simp add: listKeySummaries_def walk_opened split: option.splits)
  ultimately show ?thesis
    by (simp add: strict_sorted_iff)
qed

theorem listKeySummaries_sorted_witness:
  "fst (listKeySummaries test_ex ''db3'' [] w0) =
     Inr [\<lparr>Key = ''/a'', Version = 3, Value = None, TypeMeta = None,
           Stats = \<lparr>VersionCount = 3, KeySize = 2, ValueSize = 3,
                    AllVersionsKeySize = 6, AllVersionsValueSize = 6\<rparr>\<rparr>,
          \<lparr>Key = ''/b'', Version = 1, Value = None, TypeMeta = None,
           Stats = \<lparr>VersionCount = 1, KeySize = 2, ValueSize = 0,
                    AllVersionsKeySize = 2, AllVersionsValueSize = 0\<rparr>\<rparr>]
   \<and> sorted_wrt (<) [''/a'', ''/b''] \<and> distinct [''/a'', ''/b'']"
proof -
  have h: "fst (listKeySummaries test_ex ''db3'' [] w0) =
     Inr [\<lparr>Key = ''/a'', Version = 3, Value = None, TypeMeta = None,
           Stats = \<lparr>VersionCount = 3, KeySize = 2, ValueSize = 3,
                    AllVersionsKeySize = 6, AllVersionsValueSize = 6\<rparr>\<rparr>,
          \<lparr>Key = ''/b'', Version = 1, Value = None, TypeMeta = None,
           Stats = \<lparr>VersionCount = 1, KeySize = 2, ValueSize = 0,
                    AllVersionsKeySize = 2, AllVersionsValueSize = 0\<rparr>\<rparr>]"
    by code_simp
  show ?thesis
    using listKeySummaries_sorted [OF h] h by simp
qed

subsection \<open>Listing by prefix\<close>

lemma bytes_HasPrefix_empty: "bytes_HasPrefix s []"
  by (simp add: bytes_HasPrefix_def)

lemma listKeySummaries_visit_filter:
  "snd (listKeySummaries_visit ex pre kv (filter (\<lambda>p. bytes_HasPrefix (fst p) pre) n))
     = filter (\<lambda>p. bytes_HasPrefix (fst p) pre) (snd (listKeySummaries_visit ex [] kv n))"
proof (cases "bytes_HasPrefix (kv_Key kv) pre")
  case True
  have look: "map_of (filter (\<lambda>p. bytes_HasPrefix (fst p) pre) n) (kv_Key kv) = map_of n (kv_Key kv)"
    using True by (rule map_of_filter_key [where Q = "\<lambda>k. bytes_HasPrefix k pre"])
  have upd: "AList.update (kv_Key kv) s (filter (\<lambda>p. bytes_HasPrefix (fst p) pre) n)
               = filter (\<lambda>p. bytes_HasPrefix (fst p) pre) (AList.update (kv_Key kv) s n)" for s
    using True by (rule update_filter_kept [where Q = "\<lambda>k. bytes_HasPrefix k pre"])
  show ?thesis
    using True
    by (simp add: listKeySummaries_visit_def bytes_HasPrefix_empty look upd Let_def
        split: option.splits prod.splits)
next
  case False
  have "filter (\<lambda>p. bytes_HasPrefix (fst p) pre) (AList.update (kv_Key kv) s n)
          = filter (\<lambda>p. bytes_HasPrefix (fst p) pre) n" for s
    using False by (rule update_filter_dropped [where Q = "\<lambda>k. bytes_HasPrefix k pre"])
  then show ?thesis
    using False
    by (simp add: listKeySummaries_visit_def bytes_HasPrefix_empty Let_def
        split: option.splits prod.splits)
qed

lemma listKeySummaries_loop_filter:
  "walk_loop ex (listKeySummaries_visit ex pre) entries
     (filter (\<lambda>p. bytes_HasPrefix (fst p) pre) n)
   = (case walk_loop ex (listKeySummaries_visit ex []) entries n of
        (e, n') \<Rightarrow> (e, filter (\<lambda>p. bytes_HasPrefix (fst p) pre) n'))"
proof (induction entries arbitrary: n)
  case Nil
  then show ?case by simp
next
  case (Cons v vs)
  show ?case
  proof (cases "Unmarshal ex v")
    case (Inl err)
    then show ?thesis
      by (simp add: listKeySummaries_loop_Cons del: walk_loop.simps)
  next
    case (Inr kv)
    then show ?thesis
      using Cons.IH [of "snd (listKeySummaries_visit ex [] kv n)"]
      by (simp add: listKeySummaries_loop_Cons listKeySummaries_visit_filter
          del: walk_loop.simps)
  qed
qed

text \<open>
  C8. For every store and every prefix, \<open>listKeySummaries\<close> with the prefix fails exactly
  when the unfiltered aggregation fails, with the same error, and otherwise returns exactly
  the summaries of the unfiltered aggregation whose keys start with the prefix, each one
  equal in every field (counts, sizes, latest version, decoded value) to its unfiltered
  counterpart. The world afterwards is the same.
\<close>

theorem listKeySummaries_prefix:
  "listKeySummaries ex filename pre w =
     (case fst (listKeySummaries ex filename [] w) of
        Inl err \<Rightarrow> Inl err
      | Inr summaries \<Rightarrow> Inr (filter (\<lambda>s. bytes_HasPrefix (Key s) pre) summaries),
      snd (listKeySummaries ex filename [] w))"
proof (cases "bolt_Open ex filename")
  case (Inl err)
  then show ?thesis
    by (simp add: listKeySummaries_def walk_open_failure)
next
  case (Inr entries)
  obtain e n where all: "walk_loop ex (listKeySummaries_visit ex []) entries [] = (e, n)"
    by (cases "walk_loop ex (listKeySummaries_visit ex []) entries []")
  have "keyed n"
    using listKeySummaries_loop_keyed [OF keyed_Nil, of ex "[]" entries] all by simp
  then have sorted:
    "getSortedKeySummaries (filter (\<lambda>p. bytes_HasPrefix (fst p) pre) n)
       = filter (\<lambda>s. bytes_HasPrefix (Key s) pre) (getSortedKeySummaries n)"
    by (rule getSortedKeySummaries_filter [where Q = "\<lambda>k. bytes_HasPrefix k pre"])
  have "walk_loop ex (listKeySummaries_visit ex pre) entries []
          = (e, filter (\<lambda>p. bytes_HasPrefix (fst p) pre) n)"
    using listKeySummaries_loop_filter [of ex pre entries "[]"] all by simp
  then show ?thesis
    using Inr all sorted
    by (simp add: listKeySummaries_def walk_opened split: option.splits)
qed

theorem listKeySummaries_prefix_witness:
  "listKeySummaries test_ex ''db3'' ''/b'' w0 =
     (Inr [\<lparr>Key = ''/b'', Version = 1, Value = None, TypeMeta = None,
            Stats = \<lparr>VersionCount = 1, KeySize = 2, ValueSize = 0,
                     AllVersionsKeySize = 2, AllVersionsValueSize = 0\<rparr>\<rparr>],
      \<lparr>stdout = [], io = [BoltOpen ''db3'']\<rparr>)"
proof -
  have h: "listKeySummaries test_ex ''db3'' [] w0 =
     (Inr [\<lparr>Key = ''/a'', Version = 3, Value = None, TypeMeta = None,
            Stats = \<lparr>VersionCount = 3, KeySize = 2, ValueSize = 3,
                     AllVersionsKeySize = 6, AllVersionsValueSize = 6\<rparr>\<rparr>,
           \<lparr>Key = ''/b'', Version = 1, Value = None, TypeMeta = None,
            Stats = \<lparr>VersionCount = 1, KeySize = 2, ValueSize = 0,
                     AllVersionsKeySize = 2, AllVersionsValueSize = 0\<rparr>\<rparr>],
      \<lparr>stdout = [], io = [BoltOpen ''db3'']\<rparr>)"
    by code_simp
  show ?thesis
    using listKeySummaries_prefix [of test_ex "''db3''" "''/b''" w0] h
    by (simp add: bytes_HasPrefix_def)
qed

subsection \<open>The latest version and the version count\<close>














text \<open>
  C1 fails on the code. The store \<open>cm\<close> holds two versions of a ConfigMap stored as JSON
  under the key \<open>/c\<close>: version 1 with the data \<open>v = 1\<close>, then version 2 with the data
  \<open>v = 22\<close>. The summary has the version 2 and the value size 56 of the second record,
  and the decoded value of the first record, \<open>v = 1\<close>, although the value of the second
  record decodes to \<open>v = 22\<close>. By \<open>listKeySummaries_summary_of_key\<close> this is so in every
  store: the decoded value is the one of the first record of the key.
\<close>

theorem listKeySummaries_stale_value:
  "bolt_Open test_ex ''cm'' = Inr [''c1'', ''c2'']
   \<and> Unmarshal test_ex ''c1'' = Inr (mkKeyValue ''/c'' 1 cm1)
   \<and> Unmarshal test_ex ''c2'' = Inr (mkKeyValue ''/c'' 2 cm2)
   \<and> fst (listKeySummaries test_ex ''cm'' [] w0) =
       Inr [\<lparr>Key = ''/c'', Version = 2, Value = Some (cm_object ''1''),
             TypeMeta = Some \<lparr>APIVersion = ''v1'', Kind = ''ConfigMap''\<rparr>,
             Stats = \<lparr>VersionCount = 2, KeySize = 2, ValueSize = 56,
                      AllVersionsKeySize = 4, AllVersionsValueSize = 111\<rparr>\<rparr>]
   \<and> decoded test_ex cm2
       = (Some (cm_object ''22''), Some \<lparr>APIVersion = ''v1'', Kind = ''ConfigMap''\<rparr>)
   \<and> cm_object ''1'' \<noteq> cm_object ''22''"
  by code_simp

end
